theory Spec2Isabelle
  imports Complex_Main "HOL-Library.Char_ord" "HOL-Library.List_Lexorder"
begin

section \<open>Errors\<close>

text \<open>
  Every exception the modelled functions can raise is a value.  \<open>FetchError\<close> stands
  for whatever the transport raises (timeout, connection failure, non-200 status).
\<close>

datatype error =
    IndexError
  | OverflowError
  | KeyError
  | ValueError
  | ApiError
  | FetchError
  | NoExpirationsAvailable
  | UnderlyingDerivationFailed

section \<open>Data repair (corrector.py)\<close>

text \<open>
  A DataFrame is its list of column labels and its rows, every row holding one cell per
  column.  A cell is \<open>None\<close> for NaN / None / NaT and \<open>Some v\<close> otherwise; the value
  type has a zero, which is what \<open>replace(0, np.nan)\<close> matches.  The row index is the
  position of the row (a unique index, as \<open>reset_index\<close> and \<open>read_parquet\<close> give).
\<close>

record 'a frame =
  columns :: "string list"
  rows :: "'a option list list"

definition empty_frame :: "'a frame \<Rightarrow> bool" where
  "empty_frame df \<longleftrightarrow> rows df = [] \<or> columns df = []"

definition price_columns :: "string list" where
  "price_columns = [''open'', ''high'', ''low'', ''close'', ''underlying_price'']"

text \<open>\<open>cols = [c for c in [...] if c in df_clean.columns]\<close>\<close>

definition present_price_columns :: "string list \<Rightarrow> string list" where
  "present_price_columns cs = filter (\<lambda>c. c \<in> set cs) price_columns"

text \<open>\<open>row.get(c)\<close>: the cell under label \<open>c\<close>, missing when the row has no such label.\<close>

definition cell :: "string list \<Rightarrow> 'a option list \<Rightarrow> string \<Rightarrow> 'a option" where
  "cell cs r c = (case map_of (zip cs r) c of None \<Rightarrow> None | Some v \<Rightarrow> v)"

text \<open>Pass 1, on one row: \<open>df_clean[cols].replace(0, np.nan)\<close>.\<close>

definition replace_zero :: "string list \<Rightarrow> string list \<Rightarrow> ('a::zero) option list \<Rightarrow> 'a option list" where
  "replace_zero cs cols r =
     map (\<lambda>(c, v). if c \<in> set cols \<and> v = Some 0 then None else v) (zip cs r)"

text \<open>\<open>row[cols].isna().any()\<close> and \<open>row[cols].isna().all()\<close>.\<close>

definition any_na :: "string list \<Rightarrow> string list \<Rightarrow> 'a option list \<Rightarrow> bool" where
  "any_na cs cols r = list_ex (\<lambda>c. cell cs r c = None) cols"

definition all_na :: "string list \<Rightarrow> string list \<Rightarrow> 'a option list \<Rightarrow> bool" where
  "all_na cs cols r = list_all (\<lambda>c. cell cs r c = None) cols"

text \<open>
  The index of \<open>row.combine_first(pd.Series(row[cols]))\<close> is the union of the two
  indexes.  \<open>Index.union\<close> returns the left index when both are equal and the sorted
  union otherwise; \<open>cols\<close> is a sublist of the row's labels, so the union holds the
  labels of the whole row.
\<close>

definition union_index :: "string list \<Rightarrow> string list \<Rightarrow> string list" where
  "union_index cs cols = (if cs = cols then cs else sort cs)"

text \<open>
  \<open>row.combine_first(pd.Series(row[cols])).dropna().iloc[0]\<close>: the row keeps its own
  values (the other series has the same cells), missing cells are dropped, and the first
  remaining one is taken; \<open>iloc[0]\<close> raises \<open>IndexError\<close> when none remains.
\<close>

definition first_valid :: "string list \<Rightarrow> string list \<Rightarrow> 'a option list \<Rightarrow> error + 'a" where
  "first_valid cs cols r =
     (case List.map_filter (cell cs r) (union_index cs cols) of
        [] \<Rightarrow> Inl IndexError
      | v # _ \<Rightarrow> Inr v)"

text \<open>\<open>row['close'] if pd.notna(row.get('close')) else ...\<close>\<close>

definition valid_val :: "string list \<Rightarrow> string list \<Rightarrow> 'a option list \<Rightarrow> error + 'a" where
  "valid_val cs cols r =
     (case cell cs r ''close'' of
        Some v \<Rightarrow> Inr v
      | None \<Rightarrow> first_valid cs cols r)"

text \<open>\<open>df_clean.loc[idx, cols] = row[cols].fillna(valid_val)\<close>\<close>

definition fillna_row :: "string list \<Rightarrow> string list \<Rightarrow> 'a \<Rightarrow> 'a option list \<Rightarrow> 'a option list" where
  "fillna_row cs cols x r =
     map (\<lambda>(c, v). if c \<in> set cols \<and> v = None then Some x else v) (zip cs r)"

text \<open>Pass 2: the body of the \<open>iterrows\<close> loop, and the loop.\<close>

definition repair_row :: "string list \<Rightarrow> string list \<Rightarrow> 'a option list \<Rightarrow> error + 'a option list" where
  "repair_row cs cols r =
     (if any_na cs cols r \<and> \<not> all_na cs cols r then
        (case valid_val cs cols r of
           Inl e \<Rightarrow> Inl e
         | Inr x \<Rightarrow> Inr (fillna_row cs cols x r))
      else Inr r)"

fun repair_rows :: "string list \<Rightarrow> string list \<Rightarrow> 'a option list list \<Rightarrow> error + 'a option list list" where
  "repair_rows cs cols [] = Inr []"
| "repair_rows cs cols (r # rs) =
     (case repair_row cs cols r of
        Inl e \<Rightarrow> Inl e
      | Inr r' \<Rightarrow>
          (case repair_rows cs cols rs of
             Inl e \<Rightarrow> Inl e
           | Inr rs' \<Rightarrow> Inr (r' # rs')))"

text \<open>Pass 3: \<open>bfill\<close> and \<open>ffill\<close> of one column, top row first.\<close>

fun bfill :: "'a option list \<Rightarrow> 'a option list" where
  "bfill [] = []"
| "bfill (x # xs) =
     (let ys = bfill xs
      in (case x of
            Some v \<Rightarrow> Some v
          | None \<Rightarrow> (case ys of [] \<Rightarrow> None | y # _ \<Rightarrow> y)) # ys)"

fun ffill_from :: "'a option \<Rightarrow> 'a option list \<Rightarrow> 'a option list" where
  "ffill_from prev [] = []"
| "ffill_from prev (x # xs) =
     (let y = (case x of Some v \<Rightarrow> Some v | None \<Rightarrow> prev)
      in y # ffill_from y xs)"

definition ffill :: "'a option list \<Rightarrow> 'a option list" where
  "ffill xs = ffill_from None xs"

definition column_values :: "'a option list list \<Rightarrow> nat \<Rightarrow> 'a option list" where
  "column_values rs j = map (\<lambda>r. r ! j) rs"

text \<open>\<open>df_clean[cols] = df_clean[cols].bfill().ffill()\<close>: column by column.\<close>

definition fill_columns :: "string list \<Rightarrow> string list \<Rightarrow> 'a option list list \<Rightarrow> 'a option list list" where
  "fill_columns cs cols rs =
     (let filled = map (\<lambda>j. if cs ! j \<in> set cols
                              then ffill (bfill (column_values rs j))
                              else column_values rs j) [0..<length cs]
      in map (\<lambda>i. map (\<lambda>col. col ! i) filled) [0..<length rs])"

definition fix_dataframe :: "('a::zero) frame \<Rightarrow> error + 'a frame" where
  "fix_dataframe df =
     (if empty_frame df then Inr df
      else
        let cs = columns df; cols = present_price_columns cs
        in if cols = [] then Inr df
           else
             (case repair_rows cs cols (map (replace_zero cs cols) (rows df)) of
                Inl e \<Rightarrow> Inl e
              | Inr rs \<Rightarrow>
                  if list_ex (all_na cs cols) rs
                  then Inr (df\<lparr>rows := fill_columns cs cols rs\<rparr>)
                  else Inr (df\<lparr>rows := rs\<rparr>)))"

text \<open>A frame is well formed when every row has one cell per column.\<close>

definition well_formed :: "'a frame \<Rightarrow> bool" where
  "well_formed df = list_all (\<lambda>r. length r = length (columns df)) (rows df)"

section \<open>Expiration selection (calendar\_utils.py)\<close>

text \<open>
  A \<open>date\<close> is its proleptic Gregorian ordinal (\<open>date.toordinal()\<close>): 1 is 0001-01-01,
  a Monday, and 3652059 is 9999-12-31.  Adding a \<open>timedelta\<close> that leaves this range
  raises \<open>OverflowError\<close>.
\<close>

definition MINORD :: int where "MINORD = 1"
definition MAXORD :: int where "MAXORD = 3652059"

definition date_add :: "int \<Rightarrow> int \<Rightarrow> error + int" where
  "date_add d n = (if MINORD \<le> d + n \<and> d + n \<le> MAXORD then Inr (d + n) else Inl OverflowError)"

text \<open>\<open>date.weekday()\<close>: Monday is 0, Sunday is 6.\<close>

definition weekday :: "int \<Rightarrow> int" where
  "weekday d = (d + 6) mod 7"

text \<open>The \<open>while\<close> loop of \<open>last_trading_day_of_week\<close>.\<close>

function scan_week :: "int \<Rightarrow> int set \<Rightarrow> int \<Rightarrow> error + int option" where
  "scan_week friday closed_dates candidate =
     (case date_add friday (- 4) of
        Inl e \<Rightarrow> Inl e
      | Inr lo \<Rightarrow>
          if lo \<le> candidate then
            if weekday candidate < 5 \<and> candidate \<notin> closed_dates then Inr (Some candidate)
            else (case date_add candidate (- 1) of
                    Inl e \<Rightarrow> Inl e
                  | Inr c \<Rightarrow> scan_week friday closed_dates c)
          else Inr None)"
  by pat_completeness auto
termination
  by (relation "measure (\<lambda>(friday, closed_dates, candidate). nat (candidate - friday + 5))")
     (auto simp: date_add_def split: if_splits)

declare scan_week.simps [simp del]

definition last_trading_day_of_week :: "int \<Rightarrow> int set \<Rightarrow> error + int option" where
  "last_trading_day_of_week current closed_dates =
     (case date_add current (4 - weekday current) of
        Inl e \<Rightarrow> Inl e
      | Inr friday \<Rightarrow> scan_week friday closed_dates friday)"

definition wednesday_of_week :: "int \<Rightarrow> error + int" where
  "wednesday_of_week current = date_add current (2 - weekday current)"

text \<open>The \<open>for _ in range(45)\<close> loop of \<open>get_next_valid_vix_expiration\<close>.\<close>

fun next_loop :: "nat \<Rightarrow> int set \<Rightarrow> int \<Rightarrow> error + int option" where
  "next_loop 0 avail_set candidate = Inr None"
| "next_loop (Suc n) avail_set candidate =
     (if candidate \<in> avail_set then Inr (Some candidate)
      else (case date_add candidate 1 of
              Inl e \<Rightarrow> Inl e
            | Inr c \<Rightarrow> next_loop n avail_set c))"

definition get_next_valid_vix_expiration :: "int \<Rightarrow> int set \<Rightarrow> error + int option" where
  "get_next_valid_vix_expiration current_date avail_set =
     (case date_add current_date 1 of
        Inl e \<Rightarrow> Inl e
      | Inr candidate \<Rightarrow> next_loop 45 avail_set candidate)"

text \<open>\<open>if next_exp: targets.add(next_exp)\<close> (a \<open>date\<close> is always true).\<close>

definition add_opt :: "int option \<Rightarrow> int set \<Rightarrow> int set" where
  "add_opt x targets = (case x of None \<Rightarrow> targets | Some d \<Rightarrow> insert d targets)"

definition vix_fallback :: "int \<Rightarrow> int set \<Rightarrow> error + int set" where
  "vix_fallback current_date avail_set =
     (case get_next_valid_vix_expiration current_date avail_set of
        Inl e \<Rightarrow> Inl e
      | Inr next_exp \<Rightarrow> Inr (add_opt next_exp {}))"

definition select_targets_set :: "string \<Rightarrow> int \<Rightarrow> int set \<Rightarrow> int set \<Rightarrow> int option \<Rightarrow> error + int set" where
  "select_targets_set symbol current_date avail_set closed_dates weekly =
     (if symbol \<in> {''SPX'', ''SPXW'', ''SPY'', ''QQQ''} then
        let targets = (if current_date \<in> avail_set then {current_date} else {})
        in (case weekly of
              None \<Rightarrow> Inr targets
            | Some w \<Rightarrow> if w \<noteq> current_date \<and> w \<in> avail_set then Inr (insert w targets)
                        else Inr targets)
      else if symbol = ''VIX'' then
        (case wednesday_of_week current_date of
           Inl e \<Rightarrow> Inl e
         | Inr wed_this_week \<Rightarrow>
             if weekday current_date \<in> {0, 1} then
               if wed_this_week \<in> avail_set \<and> wed_this_week \<notin> closed_dates
               then Inr {wed_this_week}
               else vix_fallback current_date avail_set
             else vix_fallback current_date avail_set)
      else Inr {})"

definition select_target_expirations :: "string \<Rightarrow> int \<Rightarrow> int list \<Rightarrow> int set \<Rightarrow> error + int list" where
  "select_target_expirations symbol current_date available closed_dates =
     (case last_trading_day_of_week current_date closed_dates of
        Inl e \<Rightarrow> Inl e
      | Inr weekly \<Rightarrow>
          (case select_targets_set symbol current_date (set available) closed_dates weekly of
             Inl e \<Rightarrow> Inl e
           | Inr targets \<Rightarrow> Inr (sorted_list_of_set targets)))"

section \<open>Underlying-price derivation (client.py, models.py, utils.py)\<close>

text \<open>
  The terminal is an oracle: for every request it either makes the transport raise
  (\<open>None\<close>) or answers with an envelope \<open>{"response": [...], "error": ...}\<close>.
\<close>

record 'a envelope =
  error_field :: bool
  response_field :: "'a list"

text \<open>\<open>parse_response\<close>: an envelope whose \<open>error\<close> field is set raises.\<close>

definition parse_response :: "'a envelope \<Rightarrow> error + 'a list" where
  "parse_response response =
     (if error_field response then Inl ApiError else Inr (response_field response))"

text \<open>\<open>fetch_with_interval_fallback\<close> followed by \<open>parse_response\<close>.\<close>

definition fetch :: "'a envelope option \<Rightarrow> error + 'a list" where
  "fetch reply = (case reply of None \<Rightarrow> Inl FetchError | Some response \<Rightarrow> parse_response response)"

text \<open>
  Items of the three listings.  An expiration item is a dict (with the value of its
  \<open>expiration\<close> key, if any) or something else, taken as its string.  A strike item is a
  dict (with the values of its \<open>strike\<close> and \<open>value\<close> keys) or a bare value.  A Greeks
  item is a dict with a \<open>data\<close> key holding rows, or a row itself; a row is a JSON object
  whose fields are null or numbers.
\<close>

datatype exp_item = ExpDict "string option" | ExpStr string

datatype strike_item = StrikeDict "rat option" "rat option" | StrikePlain "rat option"

datatype json = JNull | JNum rat

type_synonym data_row = "(string \<times> json) list"

datatype greeks_item = Nested "data_row list" | Flat data_row

record request =
  req_symbol :: string
  req_expiration :: string
  req_strike :: rat
  req_right :: string
  req_date :: string

record server =
  list_expirations :: "string \<Rightarrow> string \<Rightarrow> exp_item envelope option"
  list_strikes :: "string \<Rightarrow> string \<Rightarrow> string \<Rightarrow> strike_item envelope option"
  greeks_first_order :: "request \<Rightarrow> greeks_item envelope option"

text \<open>\<open>_format_date\<close>: \<open>date_str.replace("-", "")\<close>.\<close>

definition format_date :: "string \<Rightarrow> string" where
  "format_date date_str = filter (\<lambda>c. c \<noteq> CHR ''-'') date_str"

definition processed_exps :: "exp_item list \<Rightarrow> string list" where
  "processed_exps items =
     concat (map (\<lambda>item.
        (case (case item of ExpDict v \<Rightarrow> v | ExpStr s \<Rightarrow> Some s) of
           None \<Rightarrow> []
         | Some val \<Rightarrow> if val = [] then [] else [format_date val])) items)"

definition get_expirations :: "server \<Rightarrow> string \<Rightarrow> string \<Rightarrow> error + string list" where
  "get_expirations srv symbol date =
     (let date_fmt = format_date date
      in case fetch (list_expirations srv symbol date_fmt) of
           Inl e \<Rightarrow> Inl e
         | Inr items \<Rightarrow> Inr (sort (filter (\<lambda>exp. date_fmt \<le> exp) (processed_exps items))))"

text \<open>\<open>a or b\<close> on optional numbers: \<open>a\<close> unless it is \<open>None\<close> or zero.\<close>

definition py_or :: "rat option \<Rightarrow> rat option \<Rightarrow> rat option" where
  "py_or a b = (case a of None \<Rightarrow> b | Some x \<Rightarrow> if x = 0 then b else Some x)"

definition processed_strikes :: "strike_item list \<Rightarrow> rat list" where
  "processed_strikes items =
     concat (map (\<lambda>item.
        (case (case item of StrikeDict s v \<Rightarrow> py_or s v | StrikePlain x \<Rightarrow> x) of
           None \<Rightarrow> []
         | Some val \<Rightarrow> [val])) items)"

definition get_strikes :: "server \<Rightarrow> string \<Rightarrow> string \<Rightarrow> string \<Rightarrow> error + rat list" where
  "get_strikes srv symbol expiration date =
     (case fetch (list_strikes srv symbol expiration (format_date date)) of
        Inl e \<Rightarrow> Inl e
      | Inr items \<Rightarrow> Inr (sort (processed_strikes items)))"

text \<open>\<open>models.UnderlyingData\<close>; \<open>__post_init__\<close> rejects an empty table.\<close>

record underlying_data =
  ud_symbol :: string
  ud_data :: "rat frame"
  ud_date :: string
  ud_interval :: string

definition UnderlyingData :: "string \<Rightarrow> rat frame \<Rightarrow> string \<Rightarrow> string \<Rightarrow> error + underlying_data" where
  "UnderlyingData symbol data date interval =
     (if empty_frame data then Inl ValueError
      else Inr \<lparr>ud_symbol = symbol, ud_data = data, ud_date = date, ud_interval = interval\<rparr>)"

text \<open>Flattening of the nested v3 answer.\<close>

definition flatten_items :: "greeks_item list \<Rightarrow> data_row list" where
  "flatten_items raw_items =
     concat (map (\<lambda>item. case item of Nested data \<Rightarrow> data | Flat row \<Rightarrow> [row]) raw_items)"

text \<open>
  \<open>pd.DataFrame(rows)\<close>: its columns are the keys that occur in some row; the cell of a
  row under a key it lacks, or whose value is null, is missing.
\<close>

definition has_column :: "data_row list \<Rightarrow> string \<Rightarrow> bool" where
  "has_column rs k = list_ex (\<lambda>r. k \<in> set (map fst r)) rs"

definition field :: "data_row \<Rightarrow> string \<Rightarrow> rat option" where
  "field r k = (case map_of r k of Some (JNum x) \<Rightarrow> Some x | _ \<Rightarrow> None)"

text \<open>\<open>df.empty\<close> of that frame: no row, or no key in any row.\<close>

definition rows_empty :: "data_row list \<Rightarrow> bool" where
  "rows_empty rs \<longleftrightarrow> rs = [] \<or> list_all (\<lambda>r. r = []) rs"

text \<open>
  \<open>dropna(subset=['underlying_price']).sort_values('timestamp')\<close>, as pairs of
  timestamp (milliseconds) and price.  Rows without a timestamp fall out of the
  \<open>groupby\<close>, which drops missing keys.  The sort is taken to be stable.
\<close>

definition priced_rows :: "data_row list \<Rightarrow> (rat \<times> rat) list" where
  "priced_rows rs =
     sort_key fst
       (concat (map (\<lambda>r. case field r ''underlying_price'' of
                            None \<Rightarrow> []
                          | Some p \<Rightarrow> (case field r ''timestamp'' of
                                         None \<Rightarrow> []
                                       | Some t \<Rightarrow> [(t, p)])) rs))"

text \<open>\<open>dt.floor('min')\<close>\<close>

definition floor_minute :: "rat \<Rightarrow> rat" where
  "floor_minute t = of_int (\<lfloor>t / 60000\<rfloor>) * 60000"

text \<open>One line of the aggregate: first, max, min, last, count.\<close>

fun ohlc_row :: "rat \<Rightarrow> rat list \<Rightarrow> rat option list" where
  "ohlc_row minute [] = [Some minute, None, None, None, None, Some 0]"
| "ohlc_row minute (p # ps) =
     [Some minute, Some p, Some (fold max ps p), Some (fold min ps p),
      Some (last (p # ps)), Some (of_nat (length (p # ps)))]"

definition aggregate :: "(rat \<times> rat) list \<Rightarrow> rat frame" where
  "aggregate tps =
     \<lparr>columns = [''timestamp'', ''open'', ''high'', ''low'', ''close'', ''volume''],
      rows = map (\<lambda>m. ohlc_row m (map snd (filter (\<lambda>tp. floor_minute (fst tp) = m) tps)))
                 (sort (remdups (map (\<lambda>tp. floor_minute (fst tp)) tps)))\<rparr>"

text \<open>
  What one non-empty answer leads to: \<open>Inr None\<close> is the \<open>continue\<close>, an error is a
  raise, \<open>Inr (Some u)\<close> the returned value.
\<close>

definition process_items :: "string \<Rightarrow> string \<Rightarrow> string \<Rightarrow> greeks_item list \<Rightarrow> error + underlying_data option" where
  "process_items symbol date interval raw_items =
     (let rs = flatten_items raw_items
      in if rows_empty rs \<or> \<not> has_column rs ''underlying_price'' then Inr None
         else if \<not> has_column rs ''timestamp'' then Inl KeyError
         else (case fix_dataframe (aggregate (priced_rows rs)) of
                 Inl e \<Rightarrow> Inl e
               | Inr ohlc \<Rightarrow>
                   (case UnderlyingData symbol ohlc date interval of
                      Inl e \<Rightarrow> Inl e
                    | Inr u \<Rightarrow> Inr (Some u))))"

text \<open>The \<open>params\<close> of a Greeks request (interval and format are constant).\<close>

definition greeks_params :: "string \<Rightarrow> string \<Rightarrow> string \<Rightarrow> rat \<Rightarrow> string \<Rightarrow> request" where
  "greeks_params symbol date target_exp target_strike right =
     \<lparr>req_symbol = symbol, req_expiration = target_exp, req_strike = target_strike,
      req_right = right, req_date = format_date date\<rparr>"

text \<open>
  The loop over the rights.  The result carries the requests sent to the Greeks
  endpoint, in order.
\<close>

fun try_rights :: "server \<Rightarrow> string \<Rightarrow> string \<Rightarrow> string \<Rightarrow> string \<Rightarrow> rat \<Rightarrow> string list
                    \<Rightarrow> request list \<times> (error + underlying_data option)" where
  "try_rights srv symbol date interval target_exp target_strike [] = ([], Inr None)"
| "try_rights srv symbol date interval target_exp target_strike (right # rest) =
     (let req = greeks_params symbol date target_exp target_strike right;
          continue = (case try_rights srv symbol date interval target_exp target_strike rest of
                        (sent, res) \<Rightarrow> (req # sent, res))
      in case fetch (greeks_first_order srv req) of
           Inl e \<Rightarrow> ([req], Inl e)
         | Inr raw_items \<Rightarrow>
             if raw_items = [] then continue
             else (case process_items symbol date interval raw_items of
                     Inl e \<Rightarrow> ([req], Inl e)
                   | Inr None \<Rightarrow> continue
                   | Inr (Some u) \<Rightarrow> ([req], Inr (Some u))))"

text \<open>The loop over \<open>exps[:2]\<close>, ending in the final \<open>raise\<close>.\<close>

fun try_expirations :: "server \<Rightarrow> string \<Rightarrow> string \<Rightarrow> string \<Rightarrow> string list
                         \<Rightarrow> request list \<times> (error + underlying_data)" where
  "try_expirations srv symbol date interval [] = ([], Inl UnderlyingDerivationFailed)"
| "try_expirations srv symbol date interval (target_exp # rest) =
     (case get_strikes srv symbol target_exp date of
        Inl e \<Rightarrow> ([], Inl e)
      | Inr strikes \<Rightarrow>
          if strikes = [] then try_expirations srv symbol date interval rest
          else
            (case try_rights srv symbol date interval target_exp
                    (strikes ! (length strikes div 2)) [''C'', ''P''] of
               (sent, Inl e) \<Rightarrow> (sent, Inl e)
             | (sent, Inr (Some u)) \<Rightarrow> (sent, Inr u)
             | (sent, Inr None) \<Rightarrow>
                 (case try_expirations srv symbol date interval rest of
                    (sent', res) \<Rightarrow> (sent @ sent', res))))"

definition fetch_underlying_ohlc :: "server \<Rightarrow> string \<Rightarrow> string \<Rightarrow> string
                                      \<Rightarrow> request list \<times> (error + underlying_data)" where
  "fetch_underlying_ohlc srv symbol date interval =
     (case get_expirations srv symbol date of
        Inl e \<Rightarrow> ([], Inl e)
      | Inr exps \<Rightarrow>
          if exps = [] then ([], Inl NoExpirationsAvailable)
          else try_expirations srv symbol date interval (take 2 exps))"

section \<open>Notions of the specification\<close>

text \<open>
  The dates for which no date arithmetic of the selector can leave the range of
  \<open>date\<close>: from 0001-01-08 to 46 days before 9999-12-31.
\<close>

definition in_scope :: "int \<Rightarrow> bool" where
  "in_scope d \<longleftrightarrow> MINORD + 7 \<le> d \<and> d + 46 \<le> MAXORD"

text \<open>
  The next available expiration strictly after a date within the 45-day horizon, as
  the specification words it: the earliest available date among the 45 days that follow;
  no target when there is none.
\<close>

definition next_available_after :: "int \<Rightarrow> int list \<Rightarrow> int list" where
  "next_available_after d available =
     (let S = filter (\<lambda>x. d < x \<and> x \<le> d + 45) available
      in if S = [] then [] else [Min (set S)])"

text \<open>
  A table without zero and without missing value in its designated price columns.
\<close>

definition no_zero_or_missing :: "('a::zero) frame \<Rightarrow> bool" where
  "no_zero_or_missing df =
     list_all (\<lambda>r. list_all (\<lambda>(c, v). if c \<in> set price_columns then v \<noteq> None \<and> v \<noteq> Some 0 else True)
                              (zip (columns df) r)) (rows df)"

text \<open>
  A request of the search whose answer gave no usable data: it came without items, or
  its rows are empty or lack the underlying-price column.
\<close>

definition skipped :: "server \<Rightarrow> string \<Rightarrow> string \<Rightarrow> string \<Rightarrow> request \<Rightarrow> bool" where
  "skipped srv symbol date interval req =
     (case fetch (greeks_first_order srv req) of
        Inl e \<Rightarrow> False
      | Inr raw_items \<Rightarrow> raw_items = [] \<or> process_items symbol date interval raw_items = Inr None)"



section \<open>Example terminals\<close>

definition answer :: "'a list \<Rightarrow> 'a envelope option" where
  "answer items = Some \<lparr>error_field = False, response_field = items\<rparr>"

text \<open>
  Two expirations; the first has no strikes, the second the strikes 90, 95, 100, 105, 110
  (listed in another order); the Call has three ticks in two minutes.
\<close>

definition terminal_five_strikes :: server where
  "terminal_five_strikes =
     \<lparr>list_expirations = (\<lambda>symbol date. answer [ExpStr ''2024-06-07'', ExpDict (Some ''20240614'')]),
      list_strikes = (\<lambda>symbol expiration date.
         answer (if expiration = ''20240607'' then []
                 else map (\<lambda>x. StrikePlain (Some x)) [110, 90, 100, 95, 105])),
      greeks_first_order = (\<lambda>req.
         answer [Nested [[(''timestamp'', JNum 60001), (''underlying_price'', JNum 5)],
                         [(''timestamp'', JNum 61000), (''underlying_price'', JNum 7)],
                         [(''timestamp'', JNum 120000), (''underlying_price'', JNum 6)]]])\<rparr>"




section \<open>Properties of the expiration selector\<close>

lemma next_loop_in_avail: "next_loop n avail_set c = Inr (Some x) \<Longrightarrow> x \<in> avail_set"
  by (induction n arbitrary: c) (auto split: if_splits sum.splits)

lemma vix_fallback_subset: "vix_fallback d avail_set = Inr T \<Longrightarrow> T \<subseteq> avail_set \<and> finite T"
  by (auto simp: vix_fallback_def get_next_valid_vix_expiration_def add_opt_def
      split: sum.splits option.splits dest: next_loop_in_avail)

lemma select_targets_set_subset:
  "select_targets_set symbol d avail_set closed_dates weekly = Inr T \<Longrightarrow> T \<subseteq> avail_set \<and> finite T"
  unfolding select_targets_set_def Let_def
  by (auto split: if_splits sum.splits option.splits dest: vix_fallback_subset)

lemma weekday_friday: "weekday (d + (4 - weekday d)) = 4"
proof -
  define q where "q = (d + 6) div 7"
  have "d + 6 = 7 * q + weekday d"
    unfolding q_def weekday_def by (rule mult_div_mod_eq [symmetric])
  then have "d + (4 - weekday d) + 6 = 4 + q * 7" by linarith
  then have "weekday (d + (4 - weekday d)) = (4 + q * 7) mod 7"
    unfolding weekday_def [of "d + (4 - weekday d)"] by (rule arg_cong)
  then show ?thesis by simp
qed

lemma weekday_in_week:
  assumes "weekday friday = 4" "friday - 4 \<le> c" "c \<le> friday"
  shows "weekday c < 5"
proof -
  define q where "q = (friday + 6) div 7"
  have "friday + 6 = 7 * q + weekday friday"
    unfolding q_def weekday_def by (rule mult_div_mod_eq [symmetric])
  then have f: "friday + 6 = 7 * q + 4" using assms(1) by simp
  define k where "k = c + 6 - 7 * q"
  have k: "0 \<le> k" "k < 5" "c + 6 = k + q * 7"
    using f assms(2,3) unfolding k_def by linarith+
  have "weekday c = (k + q * 7) mod 7"
    unfolding weekday_def using k(3) by (rule arg_cong)
  also have "\<dots> = k" using k(1,2) by simp
  finally show ?thesis using k(2) by simp
qed

lemma scan_week_step:
  assumes "MINORD + 5 \<le> friday" "friday \<le> MAXORD" "weekday friday = 4" "c \<le> friday"
  shows "scan_week friday closed_dates c =
           (if friday - 4 \<le> c then
              if c \<notin> closed_dates then Inr (Some c) else scan_week friday closed_dates (c - 1)
            else Inr None)"
proof -
  have lo: "date_add friday (- 4) = Inr (friday - 4)"
    using assms(1,2) by (simp add: date_add_def MINORD_def)
  show ?thesis
  proof (cases "friday - 4 \<le> c")
    case False
    then show ?thesis by (subst scan_week.simps) (simp add: lo)
  next
    case True
    have wd: "weekday c < 5" using weekday_in_week [OF assms(3) True assms(4)] .
    have prev: "date_add c (- 1) = Inr (c - 1)"
      using True assms(1,2,4) by (simp add: date_add_def MINORD_def)
    show ?thesis using True wd by (subst scan_week.simps) (simp add: lo prev)
  qed
qed

lemma scan_week_found:
  assumes "MINORD + 5 \<le> friday" "friday \<le> MAXORD" "weekday friday = 4"
    and "friday - 4 \<le> w" "w \<notin> closed_dates"
  shows "nat (c - w) = n \<Longrightarrow> w \<le> c \<Longrightarrow> c \<le> friday \<Longrightarrow>
         (\<forall>d. w < d \<and> d \<le> c \<longrightarrow> d \<in> closed_dates) \<Longrightarrow>
         scan_week friday closed_dates c = Inr (Some w)"
proof (induction n arbitrary: c)
  case 0
  then have "c = w" by simp
  then show ?case
    using assms(4,5) 0(3) by (subst scan_week_step [OF assms(1-3)]) simp_all
next
  case (Suc n)
  then have lt: "w < c" by linarith
  then have cl: "c \<in> closed_dates" using Suc.prems(4) by simp
  have "scan_week friday closed_dates c = scan_week friday closed_dates (c - 1)"
    using cl lt assms(4) Suc.prems(3) by (subst scan_week_step [OF assms(1-3)]) simp_all
  moreover have "scan_week friday closed_dates (c - 1) = Inr (Some w)"
  proof (rule Suc.IH)
    show "nat (c - 1 - w) = n" using Suc.prems(1) by linarith
    show "w \<le> c - 1" using lt by simp
    show "c - 1 \<le> friday" using Suc.prems(3) by simp
    show "\<forall>d. w < d \<and> d \<le> c - 1 \<longrightarrow> d \<in> closed_dates" using Suc.prems(4) by simp
  qed
  ultimately show ?case by simp
qed

lemma scan_week_none:
  assumes "MINORD + 5 \<le> friday" "friday \<le> MAXORD" "weekday friday = 4"
  shows "nat (c - (friday - 5)) = n \<Longrightarrow> friday - 5 \<le> c \<Longrightarrow> c \<le> friday \<Longrightarrow>
         (\<forall>d. friday - 4 \<le> d \<and> d \<le> c \<longrightarrow> d \<in> closed_dates) \<Longrightarrow>
         scan_week friday closed_dates c = Inr None"
proof (induction n arbitrary: c)
  case 0
  then have "c = friday - 5" by simp
  then show ?case
    by (subst scan_week_step [OF assms(1-3)]) simp_all
next
  case (Suc n)
  then have lo: "friday - 4 \<le> c" by linarith
  then have cl: "c \<in> closed_dates" using Suc.prems(4) by simp
  have "scan_week friday closed_dates c = scan_week friday closed_dates (c - 1)"
    using cl lo Suc.prems(3) by (subst scan_week_step [OF assms(1-3)]) simp_all
  moreover have "scan_week friday closed_dates (c - 1) = Inr None"
  proof (rule Suc.IH)
    show "nat (c - 1 - (friday - 5)) = n" using Suc.prems(1) by linarith
    show "friday - 5 \<le> c - 1" using lo by simp
    show "c - 1 \<le> friday" using Suc.prems(3) by simp
    show "\<forall>d. friday - 4 \<le> d \<and> d \<le> c - 1 \<longrightarrow> d \<in> closed_dates" using Suc.prems(4) by simp
  qed
  ultimately show ?case by simp
qed

lemma scan_week_total:
  assumes "MINORD + 5 \<le> friday" "friday \<le> MAXORD" "weekday friday = 4"
  shows "nat (c - (friday - 5)) = n \<Longrightarrow> friday - 5 \<le> c \<Longrightarrow> c \<le> friday \<Longrightarrow>
         \<exists>r. scan_week friday closed_dates c = Inr r"
proof (induction n arbitrary: c)
  case 0
  then have "c = friday - 5" by simp
  then show ?case
    by (subst scan_week_step [OF assms(1-3)]) simp_all
next
  case (Suc n)
  then have lo: "friday - 4 \<le> c" by linarith
  have "\<exists>r. scan_week friday closed_dates (c - 1) = Inr r"
  proof (rule Suc.IH)
    show "nat (c - 1 - (friday - 5)) = n" using Suc.prems(1) by linarith
    show "friday - 5 \<le> c - 1" using lo by simp
    show "c - 1 \<le> friday" using Suc.prems(3) by simp
  qed
  then show ?case
    using lo Suc.prems(3) by (subst scan_week_step [OF assms(1-3)]) simp_all
qed

lemma weekday_bounds: "0 \<le> weekday d" "weekday d < 7"
  by (simp_all add: weekday_def)

lemma last_trading_day_of_week_scan:
  assumes "in_scope d"
  shows "last_trading_day_of_week d closed_dates =
           scan_week (d + (4 - weekday d)) closed_dates (d + (4 - weekday d))"
    and "MINORD + 5 \<le> d + (4 - weekday d)" and "d + (4 - weekday d) \<le> MAXORD"
proof -
  have b: "0 \<le> weekday d" "weekday d < 7" by (rule weekday_bounds)+
  show lo: "MINORD + 5 \<le> d + (4 - weekday d)" and hi: "d + (4 - weekday d) \<le> MAXORD"
    using assms b unfolding in_scope_def by linarith+
  have "date_add d (4 - weekday d) = Inr (d + (4 - weekday d))"
    using lo hi by (simp add: date_add_def)
  then show "last_trading_day_of_week d closed_dates =
           scan_week (d + (4 - weekday d)) closed_dates (d + (4 - weekday d))"
    by (simp add: last_trading_day_of_week_def)
qed

lemma last_trading_day_of_week_total:
  assumes "in_scope d"
  shows "\<exists>r. last_trading_day_of_week d closed_dates = Inr r"
  unfolding last_trading_day_of_week_scan(1) [OF assms]
  by (rule scan_week_total [OF last_trading_day_of_week_scan(2,3) [OF assms] weekday_friday refl])
     simp_all

lemma last_trading_day_of_week_found:
  assumes "in_scope d"
    and "d + (4 - weekday d) - 4 \<le> w" "w \<le> d + (4 - weekday d)" "w \<notin> closed_dates"
    and "\<forall>x. w < x \<and> x \<le> d + (4 - weekday d) \<longrightarrow> x \<in> closed_dates"
  shows "last_trading_day_of_week d closed_dates = Inr (Some w)"
  unfolding last_trading_day_of_week_scan(1) [OF assms(1)]
  by (rule scan_week_found [OF last_trading_day_of_week_scan(2,3) [OF assms(1)] weekday_friday
        assms(2,4) refl assms(3) order_refl assms(5)])

text \<open>
  C6.  For a symbol of the same-day-plus-weekly class (SPX, SPXW, SPY, QQQ) the call
  returns a list; the current date is in it whenever it is an available expiration; and
  so is the last valid trading day of the current week (the latest day from that week's
  Monday to its Friday that is a weekday and not closed) whenever it is an available
  expiration other than the current date.
\<close>

theorem select_target_expirations_spx_class:
  assumes "symbol \<in> {''SPX'', ''SPXW'', ''SPY'', ''QQQ''}" and "in_scope current_date"
  shows "\<exists>ts. select_target_expirations symbol current_date available closed_dates = Inr ts \<and>
           (current_date \<in> set available \<longrightarrow> current_date \<in> set ts) \<and>
           (\<forall>w. current_date + (4 - weekday current_date) - 4 \<le> w \<and>
                w \<le> current_date + (4 - weekday current_date) \<and>
                weekday w < 5 \<and> w \<notin> closed_dates \<and>
                (\<forall>x. w < x \<and> x \<le> current_date + (4 - weekday current_date) \<longrightarrow> x \<in> closed_dates) \<and>
                w \<in> set available \<and> w \<noteq> current_date
                \<longrightarrow> w \<in> set ts)"
proof -
  obtain weekly where weekly: "last_trading_day_of_week current_date closed_dates = Inr weekly"
    using last_trading_day_of_week_total [OF assms(2)] by blast
  define targets where "targets =
     (if current_date \<in> set available then {current_date} else {}) \<union>
     (case weekly of None \<Rightarrow> {}
      | Some w \<Rightarrow> if w \<noteq> current_date \<and> w \<in> set available then {w} else {})"
  have sel: "select_targets_set symbol current_date (set available) closed_dates weekly = Inr targets"
    using assms(1) unfolding select_targets_set_def targets_def Let_def
    by (auto split: option.splits)
  have fin: "finite targets" unfolding targets_def by (auto split: option.splits)
  have res: "select_target_expirations symbol current_date available closed_dates
               = Inr (sorted_list_of_set targets)"
    by (simp add: select_target_expirations_def weekly sel)
  have a: "current_date \<in> set available \<longrightarrow> current_date \<in> targets"
    unfolding targets_def by simp
  have b: "w \<in> targets"
    if "current_date + (4 - weekday current_date) - 4 \<le> w"
      "w \<le> current_date + (4 - weekday current_date)" "w \<notin> closed_dates"
      "\<forall>x. w < x \<and> x \<le> current_date + (4 - weekday current_date) \<longrightarrow> x \<in> closed_dates"
      "w \<in> set available" "w \<noteq> current_date" for w
  proof -
    have "weekly = Some w"
      using last_trading_day_of_week_found [OF assms(2) that(1,2,3,4)] weekly by simp
    then show ?thesis using that(5,6) unfolding targets_def by simp
  qed
  show ?thesis
    using res a b fin by (intro exI [of _ "sorted_list_of_set targets"]) simp
qed

theorem select_target_expirations_spx_class_witness:
  "''SPX'' \<in> {''SPX'', ''SPXW'', ''SPY'', ''QQQ''} \<and> in_scope 739040 \<and>
   (\<exists>ts. select_target_expirations ''SPX'' 739040 [739040, 739043, 739044] {739044} = Inr ts \<and>
         739040 \<in> set ts \<and> 739043 \<in> set ts)"
proof -
  have h1: "''SPX'' \<in> {''SPX'', ''SPXW'', ''SPY'', ''QQQ''}" by simp
  have h2: "in_scope 739040" by (simp add: in_scope_def MINORD_def MAXORD_def)
  have wd: "weekday 739040 = 0" "weekday 739043 = 3" by (simp_all add: weekday_def)
  obtain ts where ts:
    "select_target_expirations ''SPX'' 739040 [739040, 739043, 739044] {739044} = Inr ts"
    "739040 \<in> set [739040, 739043, 739044 :: int] \<longrightarrow> 739040 \<in> set ts"
    "\<forall>w. 739040 + (4 - weekday 739040) - 4 \<le> w \<and>
         w \<le> 739040 + (4 - weekday 739040) \<and>
         weekday w < 5 \<and> w \<notin> {739044} \<and>
         (\<forall>x. w < x \<and> x \<le> 739040 + (4 - weekday 739040) \<longrightarrow> x \<in> {739044}) \<and>
         w \<in> set [739040, 739043, 739044] \<and> w \<noteq> 739040
         \<longrightarrow> w \<in> set ts"
    using select_target_expirations_spx_class [OF h1 h2, of "[739040, 739043, 739044]" "{739044}"]
    by blast
  have "739040 \<in> set ts" using ts(2) by simp
  moreover have "739043 \<in> set ts"
  proof -
    have "\<forall>x::int. 739043 < x \<and> x \<le> 739040 + (4 - weekday 739040) \<longrightarrow> x \<in> {739044}"
      unfolding wd by auto
    then show ?thesis using ts(3) [rule_format, of 739043] wd by simp
  qed
  ultimately show ?thesis using h1 h2 ts(1) by blast
qed

lemma next_loop_found:
  "c \<le> x \<Longrightarrow> x < c + int n \<Longrightarrow> x \<in> avail_set \<Longrightarrow> (\<forall>y. c \<le> y \<and> y < x \<longrightarrow> y \<notin> avail_set) \<Longrightarrow>
   MINORD \<le> c \<Longrightarrow> x \<le> MAXORD \<Longrightarrow> next_loop n avail_set c = Inr (Some x)"
proof (induction n arbitrary: c)
  case 0
  then show ?case by simp
next
  case (Suc n)
  show ?case
  proof (cases "c = x")
    case True
    then show ?thesis using Suc.prems(3) by simp
  next
    case False
    then have lt: "c < x" using Suc.prems(1) by simp
    then have notin: "c \<notin> avail_set" using Suc.prems(4) by simp
    have step: "date_add c 1 = Inr (c + 1)"
      using lt Suc.prems(5,6) by (simp add: date_add_def)
    have "next_loop n avail_set (c + 1) = Inr (Some x)"
    proof (rule Suc.IH)
      show "c + 1 \<le> x" using lt by simp
      show "x < c + 1 + int n" using Suc.prems(2) by simp
      show "x \<in> avail_set" by (rule Suc.prems(3))
      show "\<forall>y. c + 1 \<le> y \<and> y < x \<longrightarrow> y \<notin> avail_set" using Suc.prems(4) by simp
      show "MINORD \<le> c + 1" using Suc.prems(5) by simp
      show "x \<le> MAXORD" by (rule Suc.prems(6))
    qed
    then show ?thesis using notin step by simp
  qed
qed

lemma next_loop_none:
  "(\<forall>y. c \<le> y \<and> y < c + int n \<longrightarrow> y \<notin> avail_set) \<Longrightarrow> MINORD \<le> c \<Longrightarrow> c + int n \<le> MAXORD \<Longrightarrow>
   next_loop n avail_set c = Inr None"
proof (induction n arbitrary: c)
  case 0
  then show ?case by simp
next
  case (Suc n)
  have notin: "c \<notin> avail_set" using Suc.prems(1) by simp
  have step: "date_add c 1 = Inr (c + 1)"
    using Suc.prems(2,3) by (simp add: date_add_def)
  have "next_loop n avail_set (c + 1) = Inr None"
  proof (rule Suc.IH)
    show "\<forall>y. c + 1 \<le> y \<and> y < c + 1 + int n \<longrightarrow> y \<notin> avail_set" using Suc.prems(1) by simp
    show "MINORD \<le> c + 1" using Suc.prems(2) by simp
    show "c + 1 + int n \<le> MAXORD" using Suc.prems(3) by simp
  qed
  then show ?case using notin step by simp
qed

lemma vix_fallback_spec:
  assumes "in_scope d"
  shows "vix_fallback d (set available) = Inr (set (next_available_after d available))"
proof -
  have range: "MINORD \<le> d + 1" "d + 1 + int 45 \<le> MAXORD"
    using assms unfolding in_scope_def by simp_all
  have start: "date_add d 1 = Inr (d + 1)"
    using range by (simp add: date_add_def)
  define S where "S = filter (\<lambda>x. d < x \<and> x \<le> d + 45) available"
  show ?thesis
  proof (cases "S = []")
    case True
    then have "\<forall>y. d + 1 \<le> y \<and> y < d + 1 + int 45 \<longrightarrow> y \<notin> set available"
      unfolding S_def by (auto simp: filter_empty_conv)
    then have "next_loop 45 (set available) (d + 1) = Inr None"
      using range by (rule next_loop_none)
    then show ?thesis
      using True start
      by (simp add: vix_fallback_def get_next_valid_vix_expiration_def add_opt_def
          next_available_after_def S_def [symmetric])
  next
    case False
    define m where "m = Min (set S)"
    have mS: "m \<in> set S" unfolding m_def using False by (intro Min_in) simp_all
    have least: "m \<le> y" if "y \<in> set S" for y
      unfolding m_def using that by (intro Min_le) simp_all
    have m: "d < m" "m \<le> d + 45" "m \<in> set available"
      using mS unfolding S_def by simp_all
    have before: "\<forall>y. d + 1 \<le> y \<and> y < m \<longrightarrow> y \<notin> set available"
    proof (intro allI impI notI)
      fix y assume y: "d + 1 \<le> y \<and> y < m" and "y \<in> set available"
      then have "y \<in> set S" using m(2) unfolding S_def by simp
      then show False using least y by fastforce
    qed
    have "next_loop 45 (set available) (d + 1) = Inr (Some m)"
    proof (rule next_loop_found)
      show "d + 1 \<le> m" using m(1) by simp
      show "m < d + 1 + int 45" using m(2) by simp
      show "m \<in> set available" by (rule m(3))
      show "\<forall>y. d + 1 \<le> y \<and> y < m \<longrightarrow> y \<notin> set available" by (rule before)
      show "MINORD \<le> d + 1" by (rule range(1))
      show "m \<le> MAXORD" using m(2) range(2) by simp
    qed
    then show ?thesis
      using False start
      by (simp add: vix_fallback_def get_next_valid_vix_expiration_def add_opt_def
          next_available_after_def S_def [symmetric] m_def)
  qed
qed



lemma select_target_expirations_total:
  assumes "in_scope current_date"
  shows "\<exists>ts. select_target_expirations symbol current_date available closed_dates = Inr ts"
proof -
  obtain weekly where weekly: "last_trading_day_of_week current_date closed_dates = Inr weekly"
    using last_trading_day_of_week_total [OF assms] by blast
  have b: "0 \<le> weekday current_date" "weekday current_date < 7" by (rule weekday_bounds)+
  have wed: "wednesday_of_week current_date = Inr (current_date + (2 - weekday current_date))"
    using assms b unfolding in_scope_def wednesday_of_week_def date_add_def by simp
  have "\<exists>T. select_targets_set symbol current_date (set available) closed_dates weekly = Inr T"
    unfolding select_targets_set_def Let_def
    by (simp add: wed vix_fallback_spec [OF assms] split: option.splits)
  then show ?thesis
    by (auto simp: select_target_expirations_def weekly)
qed

text \<open>
  C5.  Whatever the symbol, the current date, the available expirations and the closed
  dates, the list that \<open>select_target_expirations\<close> returns is sorted ascending, has no
  duplicates, and holds only available expirations; and it does return a list for every
  date in scope.
\<close>

theorem select_target_expirations_sorted_distinct_subset:
  "(in_scope current_date \<longrightarrow>
      (\<exists>ts. select_target_expirations symbol current_date available closed_dates = Inr ts))
   \<and> (select_target_expirations symbol current_date available closed_dates = Inr ts \<longrightarrow>
        sorted ts \<and> distinct ts \<and> set ts \<subseteq> set available)"
proof (intro conjI impI)
  assume "in_scope current_date"
  then show "\<exists>ts. select_target_expirations symbol current_date available closed_dates = Inr ts"
    by (rule select_target_expirations_total)
next
  assume "select_target_expirations symbol current_date available closed_dates = Inr ts"
  then obtain T where T: "T \<subseteq> set available" "finite T" "ts = sorted_list_of_set T"
    unfolding select_target_expirations_def
    by (auto split: sum.splits dest!: select_targets_set_subset)
  show "sorted ts" using T by simp
  show "distinct ts" using T by simp
  show "set ts \<subseteq> set available" using T by simp
qed

theorem select_target_expirations_sorted_distinct_subset_witness:
  "in_scope 739040
   \<and> select_target_expirations ''SPX'' 739040 [739044, 739040, 739041] {} = Inr [739040, 739044]
   \<and> sorted [739040, 739044 :: int] \<and> distinct [739040, 739044 :: int]
   \<and> set [739040, 739044] \<subseteq> set [739044, 739040, 739041 :: int]"
proof -
  have s: "in_scope 739040" by (simp add: in_scope_def MINORD_def MAXORD_def)
  have h: "select_target_expirations ''SPX'' 739040 [739044, 739040, 739041] {} = Inr [739040, 739044]"
    by code_simp
  have "\<exists>ts. select_target_expirations ''SPX'' 739040 [739044, 739040, 739041] {} = Inr ts"
    using select_target_expirations_sorted_distinct_subset
      [of 739040 "''SPX''" "[739044, 739040, 739041]" "{}"] s by blast
  moreover have "sorted [739040, 739044 :: int] \<and> distinct [739040, 739044 :: int]
       \<and> set [739040, 739044] \<subseteq> set [739044, 739040, 739041 :: int]"
    using select_target_expirations_sorted_distinct_subset
      [of 739040 "''SPX''" "[739044, 739040, 739041]" "{}" "[739040, 739044]"] h by blast
  ultimately show ?thesis using s h by blast
qed



section \<open>Properties of the repair\<close>

lemma present_price_columns_subset:
  "set (present_price_columns cs) \<subseteq> set cs \<inter> set price_columns"
  by (auto simp: present_price_columns_def)

lemma clean_row_replace_zero:
  fixes r :: "('a::zero) option list"
  assumes "length r = length cs"
    and "list_all (\<lambda>(c, v). if c \<in> set price_columns then v \<noteq> None \<and> v \<noteq> Some 0 else True) (zip cs r)"
  shows "replace_zero cs (present_price_columns cs) r = r"
proof -
  have "map (\<lambda>(c, v). if c \<in> set (present_price_columns cs) \<and> v = Some 0 then None else v) (zip cs r)
        = map snd (zip cs r)"
  proof (rule map_cong [OF refl])
    fix p assume p: "p \<in> set (zip cs r)"
    obtain c v where cv: "p = (c, v)" by (cases p)
    have "c \<in> set price_columns \<Longrightarrow> v \<noteq> Some 0"
      using assms(2) p cv by (auto simp: list_all_iff)
    then show "(case p of (c, v) \<Rightarrow> if c \<in> set (present_price_columns cs) \<and> v = Some 0 then None else v) = snd p"
      using cv present_price_columns_subset [of cs] by auto
  qed
  then show ?thesis using assms(1) by (simp add: replace_zero_def)
qed

lemma clean_row_cell:
  fixes r :: "('a::zero) option list"
  assumes "length r = length cs"
    and "list_all (\<lambda>(c, v). if c \<in> set price_columns then v \<noteq> None \<and> v \<noteq> Some 0 else True) (zip cs r)"
    and "c \<in> set (present_price_columns cs)"
  shows "cell cs r c \<noteq> None"
proof -
  have c: "c \<in> set cs" "c \<in> set price_columns"
    using assms(3) present_price_columns_subset [of cs] by auto
  then have "c \<in> fst ` set (zip cs r)" using assms(1) by (simp add: map_fst_zip flip: set_map)
  then obtain v where v: "map_of (zip cs r) c = Some v"
    by (meson map_of_eq_None_iff not_None_eq)
  then have "(c, v) \<in> set (zip cs r)" by (rule map_of_SomeD)
  then have "v \<noteq> None" using assms(2) c(2) by (auto simp: list_all_iff)
  then show ?thesis using v by (simp add: cell_def)
qed

lemma clean_row_not_any_na:
  fixes r :: "('a::zero) option list"
  assumes "length r = length cs"
    and "list_all (\<lambda>(c, v). if c \<in> set price_columns then v \<noteq> None \<and> v \<noteq> Some 0 else True) (zip cs r)"
  shows "\<not> any_na cs (present_price_columns cs) r"
  using clean_row_cell [OF assms] by (auto simp: any_na_def list_ex_iff)

lemma clean_row_not_all_na:
  fixes r :: "('a::zero) option list"
  assumes "length r = length cs"
    and "list_all (\<lambda>(c, v). if c \<in> set price_columns then v \<noteq> None \<and> v \<noteq> Some 0 else True) (zip cs r)"
    and "present_price_columns cs \<noteq> []"
  shows "\<not> all_na cs (present_price_columns cs) r"
proof -
  obtain c where "c \<in> set (present_price_columns cs)"
    using assms(3) by (cases "present_price_columns cs") auto
  then show ?thesis
    using clean_row_cell [OF assms(1,2)] by (auto simp: all_na_def list_all_iff)
qed

lemma clean_rows_repair:
  fixes rs :: "('a::zero) option list list"
  assumes "list_all (\<lambda>r. length r = length cs) rs"
    and "list_all (\<lambda>r. list_all (\<lambda>(c, v). if c \<in> set price_columns then v \<noteq> None \<and> v \<noteq> Some 0 else True)
                              (zip cs r)) rs"
  shows "repair_rows cs (present_price_columns cs) rs = Inr rs"
  using assms
proof (induction rs)
  case Nil
  then show ?case by simp
next
  case (Cons r rs)
  have "repair_row cs (present_price_columns cs) r = Inr r"
    using clean_row_not_any_na [of r cs] Cons.prems by (simp add: repair_row_def)
  then show ?case using Cons by simp
qed







text \<open>
  C9.  A table that has no zero and no missing value in its designated price columns is
  returned unchanged by \<open>fix_dataframe\<close>.
\<close>

theorem fix_dataframe_clean_unchanged:
  fixes df :: "('a::zero) frame"
  assumes "well_formed df" and "no_zero_or_missing df"
  shows "fix_dataframe df = Inr df"
proof (cases "empty_frame df \<or> present_price_columns (columns df) = []")
  case True
  then show ?thesis by (auto simp: fix_dataframe_def Let_def)
next
  case False
  let ?cs = "columns df"
  let ?cols = "present_price_columns ?cs"
  have wf: "list_all (\<lambda>r. length r = length ?cs) (rows df)"
    using assms(1) by (simp add: well_formed_def)
  have clean: "list_all (\<lambda>r. list_all (\<lambda>(c, v). if c \<in> set price_columns then v \<noteq> None \<and> v \<noteq> Some 0 else True)
                              (zip ?cs r)) (rows df)"
    using assms(2) by (simp add: no_zero_or_missing_def)
  have p1: "map (replace_zero ?cs ?cols) (rows df) = rows df"
    using wf clean by (intro map_idI clean_row_replace_zero) (auto simp: list_all_iff)
  have p2: "repair_rows ?cs ?cols (rows df) = Inr (rows df)"
    using wf clean by (rule clean_rows_repair)
  have p3: "\<not> list_ex (all_na ?cs ?cols) (rows df)"
  proof
    assume "list_ex (all_na ?cs ?cols) (rows df)"
    then obtain r where r: "r \<in> set (rows df)" "all_na ?cs ?cols r"
      by (auto simp: list_ex_iff)
    have "length r = length ?cs" using wf r(1) by (simp add: list_all_iff)
    moreover have "list_all (\<lambda>(c, v). if c \<in> set price_columns then v \<noteq> None \<and> v \<noteq> Some 0 else True)
                     (zip ?cs r)"
      using clean r(1) by (simp add: list_all_iff)
    moreover have "?cols \<noteq> []" using False by simp
    ultimately have "\<not> all_na ?cs ?cols r" by (rule clean_row_not_all_na)
    then show False using r(2) by simp
  qed
  show ?thesis
    using False by (simp add: fix_dataframe_def Let_def p1 p2 p3)
qed

theorem fix_dataframe_clean_unchanged_witness:
  "well_formed \<lparr>columns = [''timestamp'', ''open'', ''close'', ''volume''],
                 rows = [[Some 60000, Some 5, Some 7, Some 0], [None, Some 3, Some 4, None :: int option]]\<rparr>
   \<and> no_zero_or_missing \<lparr>columns = [''timestamp'', ''open'', ''close'', ''volume''],
                 rows = [[Some 60000, Some 5, Some 7, Some 0], [None, Some 3, Some 4, None :: int option]]\<rparr>
   \<and> fix_dataframe \<lparr>columns = [''timestamp'', ''open'', ''close'', ''volume''],
                 rows = [[Some 60000, Some 5, Some 7, Some 0], [None, Some 3, Some 4, None :: int option]]\<rparr>
     = Inr \<lparr>columns = [''timestamp'', ''open'', ''close'', ''volume''],
                 rows = [[Some 60000, Some 5, Some 7, Some 0], [None, Some 3, Some 4, None]]\<rparr>"
proof -
  let ?df = "\<lparr>columns = [''timestamp'', ''open'', ''close'', ''volume''],
                 rows = [[Some 60000, Some 5, Some 7, Some 0], [None, Some 3, Some 4, None :: int option]]\<rparr>"
  have h1: "well_formed ?df" by (simp add: well_formed_def)
  have h2: "no_zero_or_missing ?df" by (simp add: no_zero_or_missing_def price_columns_def)
  show ?thesis using h1 h2 fix_dataframe_clean_unchanged [OF h1 h2] by simp
qed

text \<open>
  C1.  When \<open>close\<close> is missing in a partly missing row, the fill value is the first
  non-missing value of the whole row, not of its designated columns.  In the table with
  columns count, open, close and rows (3, 5, 0), (7, 10, 10), the missing \<open>close\<close> of
  the first row receives 3, the value of \<open>count\<close>, and not 5, the value of \<open>open\<close>.
\<close>

theorem fix_dataframe_fill_from_other_column:
  "fix_dataframe \<lparr>columns = [''count'', ''open'', ''close''],
                   rows = [[Some 3, Some 5, Some 0], [Some 7, Some 10, Some (10 :: int)]]\<rparr>
   = Inr \<lparr>columns = [''count'', ''open'', ''close''],
          rows = [[Some 3, Some 5, Some 3], [Some 7, Some 10, Some 10]]\<rparr>"
  by code_simp

text \<open>
  C2.  A designated column can keep a zero although it is not zero in every row.  In the
  table with columns count, open, close and rows (0, 5, 0), (7, 10, 10), the \<open>close\<close>
  of the first row is filled with the zero of \<open>count\<close>, so the result is the input.
\<close>

theorem fix_dataframe_leaves_zero:
  "fix_dataframe \<lparr>columns = [''count'', ''open'', ''close''],
                   rows = [[Some 0, Some 5, Some 0], [Some 7, Some 10, Some (10 :: int)]]\<rparr>
   = Inr \<lparr>columns = [''count'', ''open'', ''close''],
          rows = [[Some 0, Some 5, Some 0], [Some 7, Some 10, Some 10]]\<rparr>"
  by code_simp

text \<open>
  C3.  A second application can change the result of the first.  In the table with
  columns count, open, close and rows (0, 5, 0), (1, 0, 0), the first application gives
  the second row the \<open>close\<close> 0 of the first row, and the second application replaces it
  by 1, the \<open>count\<close> of the second row.
\<close>

theorem fix_dataframe_twice_differs:
  "fix_dataframe \<lparr>columns = [''count'', ''open'', ''close''],
                   rows = [[Some 0, Some 5, Some 0], [Some 1, Some 0, Some (0 :: int)]]\<rparr>
   = Inr \<lparr>columns = [''count'', ''open'', ''close''],
          rows = [[Some 0, Some 5, Some 0], [Some 1, Some 5, Some 0]]\<rparr>
   \<and> fix_dataframe \<lparr>columns = [''count'', ''open'', ''close''],
                   rows = [[Some 0, Some 5, Some 0], [Some 1, Some 5, Some (0 :: int)]]\<rparr>
   = Inr \<lparr>columns = [''count'', ''open'', ''close''],
          rows = [[Some 0, Some 5, Some 0], [Some 1, Some 5, Some 1]]\<rparr>"
  by code_simp

section \<open>Properties of the underlying-price derivation\<close>

lemma get_strikes_sorted: "get_strikes srv symbol expiration date = Inr ks \<Longrightarrow> sorted ks"
  by (auto simp: get_strikes_def split: sum.splits)







lemma try_rights_step:
  "try_rights srv symbol date interval target_exp k (right # rest) =
     (let req = greeks_params symbol date target_exp k right
      in if skipped srv symbol date interval req
         then (req # fst (try_rights srv symbol date interval target_exp k rest),
               snd (try_rights srv symbol date interval target_exp k rest))
         else ([req], case fetch (greeks_first_order srv req) of
                        Inl e \<Rightarrow> Inl e
                      | Inr raw_items \<Rightarrow> process_items symbol date interval raw_items))"
  by (auto simp: skipped_def Let_def split: sum.splits option.splits prod.splits)

lemma try_rights_requests:
  "set (fst (try_rights srv symbol date interval target_exp k rights))
     \<subseteq> greeks_params symbol date target_exp k ` set rights"
proof (induction rights)
  case Nil
  then show ?case by simp
next
  case (Cons right rest)
  then show ?case
    unfolding try_rights_step Let_def by auto
qed








lemma try_expirations_step:
  "try_expirations srv symbol date interval (target_exp # rest) =
     (case get_strikes srv symbol target_exp date of
        Inl e \<Rightarrow> ([], Inl e)
      | Inr strikes \<Rightarrow>
          if strikes = [] then try_expirations srv symbol date interval rest
          else
            (let T = try_rights srv symbol date interval target_exp
                       (strikes ! (length strikes div 2)) [''C'', ''P'']
             in case snd T of
                  Inl e \<Rightarrow> (fst T, Inl e)
                | Inr (Some u) \<Rightarrow> (fst T, Inr u)
                | Inr None \<Rightarrow> (fst T @ fst (try_expirations srv symbol date interval rest),
                               snd (try_expirations srv symbol date interval rest))))"
  by (simp add: Let_def split: sum.splits option.splits prod.splits)

declare try_rights.simps [simp del] try_expirations.simps [simp del]

lemma try_expirations_requests:
  "req \<in> set (fst (try_expirations srv symbol date interval exps)) \<Longrightarrow>
     req_expiration req \<in> set exps \<and>
     (\<exists>ks. get_strikes srv symbol (req_expiration req) date = Inr ks \<and> ks \<noteq> [] \<and>
           req_strike req = ks ! (length ks div 2))"
proof (induction exps)
  case Nil
  then show ?case by (simp add: try_expirations.simps)
next
  case (Cons target_exp rest)
  show ?case
  proof (cases "get_strikes srv symbol target_exp date")
    case (Inl e)
    then show ?thesis using Cons.prems by (simp add: try_expirations_step)
  next
    case (Inr ks)
    show ?thesis
    proof (cases "ks = []")
      case True
      then show ?thesis using Cons Inr by (simp add: try_expirations_step)
    next
      case False
      let ?T = "try_rights srv symbol date interval target_exp (ks ! (length ks div 2)) [''C'', ''P'']"
      have "req \<in> set (fst ?T) \<or> req \<in> set (fst (try_expirations srv symbol date interval rest))"
        using Cons.prems Inr False
        by (auto simp: try_expirations_step Let_def split: sum.splits option.splits)
      then show ?thesis
      proof
        assume "req \<in> set (fst ?T)"
        then have "req \<in> greeks_params symbol date target_exp (ks ! (length ks div 2)) ` set [''C'', ''P'']"
          using try_rights_requests by blast
        then have "req_expiration req = target_exp" "req_strike req = ks ! (length ks div 2)"
          by (auto simp: greeks_params_def)
        then show ?thesis using Inr False by simp
      next
        assume "req \<in> set (fst (try_expirations srv symbol date interval rest))"
        then show ?thesis using Cons.IH by simp
      qed
    qed
  qed
qed






text \<open>
  C7.  An expiration whose strike list is empty is skipped: the search goes on with the
  remaining expirations.  Every Greeks request of the derivation is for one of the first
  two expirations, and its strike is the element of that expiration's sorted strike list
  at the index \<open>len(strikes) // 2\<close>, which lies inside the list.  For the strikes
  90, 95, 100, 105, 110 that strike is 100.
\<close>

theorem atm_strike_is_middle_of_sorted_strikes:
  "(get_strikes srv symbol target_exp date = Inr [] \<longrightarrow>
      try_expirations srv symbol date interval (target_exp # rest)
        = try_expirations srv symbol date interval rest)
   \<and> (\<forall>req \<in> set (fst (fetch_underlying_ohlc srv symbol date interval)).
        \<exists>exps ks. get_expirations srv symbol date = Inr exps
          \<and> req_expiration req \<in> set (take 2 exps)
          \<and> get_strikes srv symbol (req_expiration req) date = Inr ks
          \<and> ks \<noteq> [] \<and> sorted ks \<and> length ks div 2 < length ks
          \<and> req_strike req = ks ! (length ks div 2))"
proof (intro conjI impI ballI)
  assume "get_strikes srv symbol target_exp date = Inr []"
  then show "try_expirations srv symbol date interval (target_exp # rest)
        = try_expirations srv symbol date interval rest"
    by (simp add: try_expirations_step)
next
  fix req
  assume req: "req \<in> set (fst (fetch_underlying_ohlc srv symbol date interval))"
  then obtain exps where exps: "get_expirations srv symbol date = Inr exps" "exps \<noteq> []"
    "req \<in> set (fst (try_expirations srv symbol date interval (take 2 exps)))"
    unfolding fetch_underlying_ohlc_def
    by (auto split: sum.splits if_splits)
  obtain ks where ks: "req_expiration req \<in> set (take 2 exps)"
    "get_strikes srv symbol (req_expiration req) date = Inr ks" "ks \<noteq> []"
    "req_strike req = ks ! (length ks div 2)"
    using try_expirations_requests [OF exps(3)] by blast
  have "sorted ks" using ks(2) by (rule get_strikes_sorted)
  moreover have "length ks div 2 < length ks" using ks(3) by simp
  ultimately show "\<exists>exps ks. get_expirations srv symbol date = Inr exps
          \<and> req_expiration req \<in> set (take 2 exps)
          \<and> get_strikes srv symbol (req_expiration req) date = Inr ks
          \<and> ks \<noteq> [] \<and> sorted ks \<and> length ks div 2 < length ks
          \<and> req_strike req = ks ! (length ks div 2)"
    using exps(1) ks by blast
qed

theorem atm_strike_is_middle_of_sorted_strikes_witness:
  "get_strikes terminal_five_strikes ''SPX'' ''20240607'' ''2024-06-05'' = Inr []
   \<and> try_expirations terminal_five_strikes ''SPX'' ''2024-06-05'' ''1m'' [''20240607'', ''20240614'']
       = try_expirations terminal_five_strikes ''SPX'' ''2024-06-05'' ''1m'' [''20240614'']
   \<and> get_strikes terminal_five_strikes ''SPX'' ''20240614'' ''2024-06-05'' = Inr [90, 95, 100, 105, 110]
   \<and> greeks_params ''SPX'' ''2024-06-05'' ''20240614'' 100 ''C''
        \<in> set (fst (fetch_underlying_ohlc terminal_five_strikes ''SPX'' ''2024-06-05'' ''1m''))
   \<and> (\<exists>ks. get_strikes terminal_five_strikes ''SPX'' ''20240614'' ''2024-06-05'' = Inr ks
          \<and> 100 = ks ! (length ks div 2))"
proof -
  note inst = atm_strike_is_middle_of_sorted_strikes
    [of terminal_five_strikes "''SPX''" "''20240607''" "''2024-06-05''" "''1m''" "[''20240614'']"]
  have h1: "get_strikes terminal_five_strikes ''SPX'' ''20240607'' ''2024-06-05'' = Inr []"
    by code_simp
  have h2: "get_strikes terminal_five_strikes ''SPX'' ''20240614'' ''2024-06-05'' = Inr [90, 95, 100, 105, 110]"
    by code_simp
  have h3: "greeks_params ''SPX'' ''2024-06-05'' ''20240614'' 100 ''C''
        \<in> set (fst (fetch_underlying_ohlc terminal_five_strikes ''SPX'' ''2024-06-05'' ''1m''))"
    by code_simp
  have skip: "try_expirations terminal_five_strikes ''SPX'' ''2024-06-05'' ''1m'' [''20240607'', ''20240614'']
       = try_expirations terminal_five_strikes ''SPX'' ''2024-06-05'' ''1m'' [''20240614'']"
    using inst h1 by blast
  have "\<exists>exps ks. get_expirations terminal_five_strikes ''SPX'' ''2024-06-05'' = Inr exps
          \<and> req_expiration (greeks_params ''SPX'' ''2024-06-05'' ''20240614'' 100 ''C'') \<in> set (take 2 exps)
          \<and> get_strikes terminal_five_strikes ''SPX''
               (req_expiration (greeks_params ''SPX'' ''2024-06-05'' ''20240614'' 100 ''C'')) ''2024-06-05'' = Inr ks
          \<and> ks \<noteq> [] \<and> sorted ks \<and> length ks div 2 < length ks
          \<and> req_strike (greeks_params ''SPX'' ''2024-06-05'' ''20240614'' 100 ''C'') = ks ! (length ks div 2)"
    using inst h3 by blast
  then have "\<exists>ks. get_strikes terminal_five_strikes ''SPX'' ''20240614'' ''2024-06-05'' = Inr ks
          \<and> 100 = ks ! (length ks div 2)"
    by (auto simp: greeks_params_def)
  then show ?thesis using h1 h2 h3 skip by blast
qed






end
